theory Spec2Isabelle
  imports Main "HOL-Library.Word"
begin

unbundle bit_operations_syntax

section \<open>ATtiny85 time switch: data model of \<open>main.cpp\<close>\<close>

text \<open>
  The firmware runs on an 8-bit AVR: \<open>uint8_t\<close>, \<open>uint16_t\<close> and \<open>uint32_t\<close> are
  \<open>8 word\<close>, \<open>16 word\<close> and \<open>32 word\<close>; arithmetic on them wraps around and comparisons
  are unsigned.
\<close>

type_synonym uint8_t = "8 word"
type_synonym uint16_t = "16 word"
type_synonym uint32_t = "32 word"

text \<open>Digital pin levels of the Arduino core (\<open>digitalRead\<close>, \<open>digitalWrite\<close>).\<close>

datatype level = LOW | HIGH

text \<open>
  \<open>wake_states_t\<close>, the enum local to \<open>loop\<close>. The enum has the two enumerators
  \<open>STATE_LOAD_ON\<close> and \<open>STATE_LOAD_OFF\<close>; the \<open>switch\<close> in \<open>loop\<close> also has a
  \<open>default\<close> branch for a variable holding any other value, which \<open>STATE_INVALID\<close>
  stands for.
\<close>

datatype wake_states_t = STATE_LOAD_ON | STATE_LOAD_OFF | STATE_INVALID

text \<open>
  The calls the claims speak about are logged in the order in which they are made:
  \<open>enable_load\<close> with its argument, and \<open>read_battery_voltage\<close>.
\<close>

datatype call = Enable_Load bool | Read_Battery_Voltage

text \<open>
  What the program reads from the outside at startup: the EEPROM (one byte per address) and
  the level of the two jumper pins.
\<close>

record hardware =
  eeprom :: "nat \<Rightarrow> uint8_t"
  select_12_24v_pin :: level
  select_feature_pin :: level

text \<open>
  The program state: the file-scope variables (\<open>clock_calibration\<close> to
  \<open>undervoltage_adc_threshold\<close>), the \<open>static\<close> locals of \<open>loop\<close>
  (\<open>wakeup_count_load_feature\<close> to \<open>wake_state\<close>), the level of the output pin
  \<open>VBAT_EN_PIN\<close> that switches the load, and the log of calls. \<open>digitalRead\<close> of
  that output pin returns the level \<open>digitalWrite\<close> has last given it.
\<close>

record state =
  clock_calibration :: uint32_t
  all_features_activated :: bool
  timing_cycles_load_on :: uint16_t
  timing_cycles_load_off :: uint16_t
  undervoltage_adc_threshold :: uint16_t
  wakeup_count_load_feature :: uint16_t
  wakeup_count_undervoltage_protection :: uint16_t
  undervoltage_protection_triggered :: bool
  wake_state :: wake_states_t
  vbat_en_pin :: level
  calls :: "call list"

subsection \<open>Constants\<close>

definition TIMING_CYCLES_BATTERY_MEASUREMENT :: uint16_t where
  "TIMING_CYCLES_BATTERY_MEASUREMENT = 110"

definition ADC_BATTERY_THRESHOLD_12v :: uint16_t where
  "ADC_BATTERY_THRESHOLD_12v = 721"

definition ADC_BATTERY_THRESHOLD_24v :: uint16_t where
  "ADC_BATTERY_THRESHOLD_24v = 726"

definition TIMING_CYCLES_LOAD_ON_12V :: uint16_t where
  "TIMING_CYCLES_LOAD_ON_12V = 7031"

definition TIMING_CYCLES_LOAD_OFF_12V :: uint16_t where
  "TIMING_CYCLES_LOAD_OFF_12V = 3516"

definition TIMING_CYCLES_LOAD_ON_24V :: uint16_t where
  "TIMING_CYCLES_LOAD_ON_24V = 8789"

definition TIMING_CYCLES_LOAD_OFF_24V :: uint16_t where
  "TIMING_CYCLES_LOAD_OFF_24V = 1758"

text \<open>The enum \<open>eeprom_addresses\<close>: consecutive addresses from 0.\<close>

definition EEPROM_ADDR_CLOCK_CALIB_3_MSB :: nat where
  "EEPROM_ADDR_CLOCK_CALIB_3_MSB = 0"

definition EEPROM_ADDR_CLOCK_CALIB_2 :: nat where
  "EEPROM_ADDR_CLOCK_CALIB_2 = 1"

definition EEPROM_ADDR_CLOCK_CALIB_1 :: nat where
  "EEPROM_ADDR_CLOCK_CALIB_1 = 2"

definition EEPROM_ADDR_CLOCK_CALIB_0_LSB :: nat where
  "EEPROM_ADDR_CLOCK_CALIB_0_LSB = 3"

definition EEPROM_ADDR_CLOCK_CALIB_MAGIC_NUMBER :: nat where
  "EEPROM_ADDR_CLOCK_CALIB_MAGIC_NUMBER = 4"

definition EEPROM_CLOCK_CALIB_MAGIC_NUMBER :: uint8_t where
  "EEPROM_CLOCK_CALIB_MAGIC_NUMBER = 0xCD"

definition SLEEP_CLOCK_VALUE_HZ :: uint32_t where
  "SLEEP_CLOCK_VALUE_HZ = 128000"

definition SLEEP_CLOCK_DEVIATION_MAX_HZ :: uint32_t where
  "SLEEP_CLOCK_DEVIATION_MAX_HZ = 30000"

definition ADC_AVERAGE_NUM :: nat where
  "ADC_AVERAGE_NUM = 32"

definition ADC_DIVISION_SHIFT :: nat where
  "ADC_DIVISION_SHIFT = 5"

subsection \<open>The load switch and the jumpers\<close>

definition enable_load :: "bool \<Rightarrow> state \<Rightarrow> state" where
  "enable_load enable s =
     s\<lparr>vbat_en_pin := (if enable then HIGH else LOW),
       calls := calls s @ [Enable_Load enable]\<rparr>"

definition is_load_enabled :: "state \<Rightarrow> bool" where
  "is_load_enabled s = (vbat_en_pin s = HIGH)"

definition get_12V_24V_selection :: "hardware \<Rightarrow> bool" where
  "get_12V_24V_selection hw = (select_12_24v_pin hw = HIGH)"

definition get_feature_selection :: "hardware \<Rightarrow> bool" where
  "get_feature_selection hw = (select_feature_pin hw = LOW)"

definition load_timing_activated :: "state \<Rightarrow> bool" where
  "load_timing_activated s = (all_features_activated s = True)"

subsection \<open>Battery measurement\<close>

text \<open>
  \<open>read_battery_voltage\<close> adds \<open>ADC_AVERAGE_NUM\<close> results of \<open>analogRead\<close> into a
  \<open>uint16_t\<close> and shifts the sum right by \<open>ADC_DIVISION_SHIFT\<close>. The argument \<open>adc\<close>
  gives the result of the \<open>i\<close>-th \<open>analogRead\<close> of this measurement. \<open>adc_accumulate\<close>
  is the \<open>for\<close> loop after \<open>n\<close> rounds. The delays and the switching of the ADC and of
  the voltage divider, which the function undoes before it returns, are not part of the
  state.
\<close>

primrec adc_accumulate :: "(nat \<Rightarrow> uint16_t) \<Rightarrow> nat \<Rightarrow> uint16_t" where
  "adc_accumulate adc 0 = 0"
| "adc_accumulate adc (Suc n) = adc_accumulate adc n + adc n"

definition read_battery_voltage :: "(nat \<Rightarrow> uint16_t) \<Rightarrow> state \<Rightarrow> uint16_t \<times> state" where
  "read_battery_voltage adc s =
     (drop_bit ADC_DIVISION_SHIFT (adc_accumulate adc ADC_AVERAGE_NUM),
      s\<lparr>calls := calls s @ [Read_Battery_Voltage]\<rparr>)"

subsection \<open>Clock calibration\<close>

definition read_clock_calibration :: "hardware \<Rightarrow> uint32_t" where
  "read_clock_calibration hw =
     (let clock_calib =
            push_bit 24 (ucast (eeprom hw EEPROM_ADDR_CLOCK_CALIB_3_MSB) :: uint32_t) OR
            push_bit 16 (ucast (eeprom hw EEPROM_ADDR_CLOCK_CALIB_2) :: uint32_t) OR
            push_bit 8 (ucast (eeprom hw EEPROM_ADDR_CLOCK_CALIB_1) :: uint32_t) OR
            (ucast (eeprom hw EEPROM_ADDR_CLOCK_CALIB_0_LSB) :: uint32_t)
      in if clock_calib = 0xFFFFFFFF then 0 else clock_calib)"

definition apply_clock_calibration :: "uint32_t \<Rightarrow> uint32_t \<Rightarrow> uint32_t" where
  "apply_clock_calibration clock_calib uncalibrated_value =
     (if clock_calib < SLEEP_CLOCK_VALUE_HZ - SLEEP_CLOCK_DEVIATION_MAX_HZ \<or>
         clock_calib > SLEEP_CLOCK_VALUE_HZ + SLEEP_CLOCK_DEVIATION_MAX_HZ
      then uncalibrated_value
      else (clock_calib * uncalibrated_value) div SLEEP_CLOCK_VALUE_HZ)"

definition clock_calibration_present :: "hardware \<Rightarrow> bool" where
  "clock_calibration_present hw =
     (eeprom hw EEPROM_ADDR_CLOCK_CALIB_MAGIC_NUMBER = EEPROM_CLOCK_CALIB_MAGIC_NUMBER)"

subsection \<open>Startup\<close>

text \<open>
  The state before \<open>setup\<close> runs: file-scope variables are zero-initialised, the statics of
  \<open>loop\<close> have their initialisers, nothing has been called yet.
\<close>

definition reset_state :: state where
  "reset_state =
     \<lparr>clock_calibration = 0,
      all_features_activated = False,
      timing_cycles_load_on = 0,
      timing_cycles_load_off = 0,
      undervoltage_adc_threshold = 0,
      wakeup_count_load_feature = 0,
      wakeup_count_undervoltage_protection = 0,
      undervoltage_protection_triggered = False,
      wake_state = STATE_LOAD_ON,
      vbat_en_pin = LOW,
      calls = []\<rparr>"

definition initialize_gpios :: "state \<Rightarrow> state" where
  "initialize_gpios s = enable_load False s"

text \<open>
  \<open>setup\<close> of the source, named \<open>setup_fn\<close> here. The timing variables are \<open>uint16_t\<close>: they are widened to \<open>uint32_t\<close> when
  passed to \<open>apply_clock_calibration\<close>, and its \<open>uint32_t\<close> result is truncated when
  assigned back. Of \<open>initialize_gpios\<close> the call of \<open>enable_load\<close> is kept; the pin modes,
  the voltage divider and \<open>enable_adc\<close> do not bear on the state.
\<close>

definition setup_fn :: "hardware \<Rightarrow> state \<Rightarrow> state" where
  "setup_fn hw s0 =
     (let s1 = initialize_gpios s0;
          s2 = s1\<lparr>clock_calibration := read_clock_calibration hw\<rparr>;
          s3 = s2\<lparr>all_features_activated := get_feature_selection hw\<rparr>;
          sel = get_12V_24V_selection hw;
          s4 = s3\<lparr>timing_cycles_load_on :=
                    (if sel = True then TIMING_CYCLES_LOAD_ON_12V else TIMING_CYCLES_LOAD_ON_24V)\<rparr>;
          s5 = s4\<lparr>timing_cycles_load_off :=
                    (if sel = True then TIMING_CYCLES_LOAD_OFF_12V else TIMING_CYCLES_LOAD_OFF_24V)\<rparr>;
          s6 = s5\<lparr>undervoltage_adc_threshold :=
                    (if sel = True then ADC_BATTERY_THRESHOLD_12v else ADC_BATTERY_THRESHOLD_24v)\<rparr>;
          s7 = (if clock_calibration_present hw then
                  (let t1 = s6\<lparr>timing_cycles_load_on :=
                              ucast (apply_clock_calibration (clock_calibration s6)
                                       (ucast (timing_cycles_load_on s6)))\<rparr>
                   in t1\<lparr>timing_cycles_load_off :=
                              ucast (apply_clock_calibration (clock_calibration t1)
                                       (ucast (timing_cycles_load_off t1)))\<rparr>)
                else s6)
      in enable_load True s7)"

subsection \<open>The main loop\<close>

text \<open>
  One run of \<open>loop\<close> is one tick: the processor sleeps until the watchdog wakes it, then
  the body runs to its end. The body is three blocks in sequence, one definition each:
  the two counters are incremented, the battery is measured if it is due, and the load
  timing state machine steps. \<open>adc\<close> gives the \<open>analogRead\<close> results of this tick.
  \<open>go_to_sleep\<close> touches none of the variables of the state, and the busy loop under
  \<open>CLOCK_CALIBRATION_MODE\<close> is not compiled, the macro being commented out.
\<close>

definition loop_wakeup :: "state \<Rightarrow> state" where
  "loop_wakeup s =
     s\<lparr>wakeup_count_load_feature := wakeup_count_load_feature s + 1,
       wakeup_count_undervoltage_protection := wakeup_count_undervoltage_protection s + 1\<rparr>"

definition loop_undervoltage_protection :: "(nat \<Rightarrow> uint16_t) \<Rightarrow> state \<Rightarrow> state" where
  "loop_undervoltage_protection adc s =
     (if is_load_enabled s \<and>
         wakeup_count_undervoltage_protection s \<ge> TIMING_CYCLES_BATTERY_MEASUREMENT
      then
        (let s1 = s\<lparr>wakeup_count_undervoltage_protection := 0\<rparr>;
             (battery_voltage, s2) = read_battery_voltage adc s1
         in if battery_voltage < undervoltage_adc_threshold s2
            then (enable_load False s2)\<lparr>undervoltage_protection_triggered := True\<rparr>
            else s2)
      else s)"

definition loop_load_timing :: "state \<Rightarrow> state" where
  "loop_load_timing s =
     (if load_timing_activated s \<and> \<not> undervoltage_protection_triggered s then
        (case wake_state s of
           STATE_LOAD_ON \<Rightarrow>
             if wakeup_count_load_feature s \<ge> timing_cycles_load_on s
             then (enable_load False (s\<lparr>wakeup_count_load_feature := 0\<rparr>))
                    \<lparr>wake_state := STATE_LOAD_OFF\<rparr>
             else s
         | STATE_LOAD_OFF \<Rightarrow>
             if wakeup_count_load_feature s \<ge> timing_cycles_load_off s
             then (enable_load True (s\<lparr>wakeup_count_load_feature := 0\<rparr>))
                    \<lparr>wake_state := STATE_LOAD_ON\<rparr>
             else s
         | STATE_INVALID \<Rightarrow> s\<lparr>wake_state := STATE_LOAD_OFF\<rparr>)
      else s)"

definition loop :: "(nat \<Rightarrow> uint16_t) \<Rightarrow> state \<Rightarrow> state" where
  "loop adc s = loop_load_timing (loop_undervoltage_protection adc (loop_wakeup s))"

text \<open>
  The Arduino core calls \<open>setup\<close> once and then \<open>loop\<close> forever.
  \<open>run_loop adc n s\<close> is the state at the end of the \<open>n\<close>-th tick, started in \<open>s\<close>;
  \<open>adc t\<close> gives the \<open>analogRead\<close> results of tick \<open>t\<close> (counted from 0).
  \<open>boot hw\<close> is the state when \<open>setup\<close> has returned.
\<close>

primrec run_loop :: "(nat \<Rightarrow> nat \<Rightarrow> uint16_t) \<Rightarrow> nat \<Rightarrow> state \<Rightarrow> state" where
  "run_loop adc 0 s = s"
| "run_loop adc (Suc n) s = loop (adc n) (run_loop adc n s)"

definition boot :: "hardware \<Rightarrow> state" where
  "boot hw = setup_fn hw reset_state"

subsection \<open>Invariant of the reachable states\<close>

text \<open>
  \<open>consistent\<close> is the invariant the proofs below carry along a run: once the undervoltage
  protection has triggered the load is off, and before that the state machine's state and
  the load pin agree.
\<close>

definition consistent :: "state \<Rightarrow> bool" where
  "consistent s =
     (if undervoltage_protection_triggered s then \<not> is_load_enabled s
      else (wake_state s = STATE_LOAD_ON \<and> is_load_enabled s) \<or>
           (wake_state s = STATE_LOAD_OFF \<and> \<not> is_load_enabled s))"

subsection \<open>Example inputs\<close>

text \<open>
  An EEPROM that is erased (all bytes \<open>0xFF\<close>) but for the magic number;
  an EEPROM that holds the calibration value 140000 (\<open>0x000222E0\<close>) and the magic
  number, with the jumpers set to 12 V and all features.
\<close>

definition erased_calibration_hardware :: hardware where
  "erased_calibration_hardware =
     \<lparr>eeprom = (\<lambda>a. if a = EEPROM_ADDR_CLOCK_CALIB_MAGIC_NUMBER
                      then EEPROM_CLOCK_CALIB_MAGIC_NUMBER else 0xFF),
      select_12_24v_pin = HIGH, select_feature_pin = LOW\<rparr>"

definition calibrated_hardware :: hardware where
  "calibrated_hardware =
     \<lparr>eeprom = (\<lambda>a. if a = 0 then 0x00 else if a = 1 then 0x02 else if a = 2 then 0x22
                     else if a = 3 then 0xE0 else 0xCD),
      select_12_24v_pin = HIGH, select_feature_pin = LOW\<rparr>"

text \<open>
  A state whose \<open>wake_state\<close> holds neither enumerator; a battery whose every ADC reading
  is 1023, and one whose every reading is 0; a board with an erased EEPROM and the jumpers
  set to 24 V and undervoltage protection only.
\<close>

definition corrupted_state :: state where
  "corrupted_state = (boot calibrated_hardware)\<lparr>wake_state := STATE_INVALID\<rparr>"

definition battery_full :: "nat \<Rightarrow> nat \<Rightarrow> uint16_t" where
  "battery_full t i = 1023"

definition battery_empty :: "nat \<Rightarrow> nat \<Rightarrow> uint16_t" where
  "battery_empty t i = 0"

definition undervoltage_only_hardware :: hardware where
  "undervoltage_only_hardware =
     \<lparr>eeprom = (\<lambda>a. 0xFF), select_12_24v_pin = LOW, select_feature_pin = HIGH\<rparr>"

text \<open>
  A board with an erased EEPROM, so without the magic number, and the jumpers set to 12 V
  and all features.
\<close>

definition uncalibrated_12V_hardware :: hardware where
  "uncalibrated_12V_hardware =
     \<lparr>eeprom = (\<lambda>a. 0xFF), select_12_24v_pin = HIGH, select_feature_pin = LOW\<rparr>"

section \<open>Properties\<close>

subsection \<open>Basic facts about one tick and about runs\<close>

lemmas loop_defs = loop_def loop_wakeup_def loop_undervoltage_protection_def
  loop_load_timing_def read_battery_voltage_def enable_load_def is_load_enabled_def
  load_timing_activated_def

lemma loop_config:
  "clock_calibration (loop adc s) = clock_calibration s"
  "all_features_activated (loop adc s) = all_features_activated s"
  "timing_cycles_load_on (loop adc s) = timing_cycles_load_on s"
  "timing_cycles_load_off (loop adc s) = timing_cycles_load_off s"
  "undervoltage_adc_threshold (loop adc s) = undervoltage_adc_threshold s"
  by (simp_all add: loop_defs Let_def split: wake_states_t.split)

lemma run_loop_config:
  "clock_calibration (run_loop adc n s) = clock_calibration s"
  "all_features_activated (run_loop adc n s) = all_features_activated s"
  "timing_cycles_load_on (run_loop adc n s) = timing_cycles_load_on s"
  "timing_cycles_load_off (run_loop adc n s) = timing_cycles_load_off s"
  "undervoltage_adc_threshold (run_loop adc n s) = undervoltage_adc_threshold s"
  by (induction n) (simp_all add: loop_config)

lemma loop_latch_mono:
  "undervoltage_protection_triggered s \<Longrightarrow> undervoltage_protection_triggered (loop adc s)"
  by (simp add: loop_defs Let_def)

lemma loop_latched:
  "undervoltage_protection_triggered s \<Longrightarrow> \<not> is_load_enabled s \<Longrightarrow> loop adc s = loop_wakeup s"
  by (simp add: loop_defs)

lemma loop_fire:
  assumes "is_load_enabled s"
    and "TIMING_CYCLES_BATTERY_MEASUREMENT \<le> wakeup_count_undervoltage_protection s + 1"
    and "fst (read_battery_voltage adc (loop_wakeup s)) < undervoltage_adc_threshold s"
  shows "undervoltage_protection_triggered (loop adc s) \<and> \<not> is_load_enabled (loop adc s)"
  using assms by (simp add: loop_defs Let_def)

lemma consistent_loop: "consistent s \<Longrightarrow> consistent (loop adc s)"
  by (auto simp add: consistent_def loop_defs Let_def split: wake_states_t.splits if_splits)

lemma consistent_boot: "consistent (boot hw)"
  by (simp add: consistent_def boot_def setup_fn_def reset_state_def initialize_gpios_def enable_load_def is_load_enabled_def Let_def)

lemma run_latch_mono:
  "undervoltage_protection_triggered (run_loop adc m s) \<Longrightarrow> m \<le> n \<Longrightarrow>
   undervoltage_protection_triggered (run_loop adc n s)"
  by (induction n) (auto simp add: le_Suc_eq loop_latch_mono)

lemma run_loop_add:
  "run_loop adc (m + n) s = run_loop (\<lambda>t. adc (m + t)) n (run_loop adc m s)"
  by (induction n) simp_all

lemma unat_count_inc:
  fixes c t :: uint16_t
  shows "unat c < unat t \<Longrightarrow> unat (c + 1) = unat c + 1"
proof -
  assume a: "unat c < unat t"
  have "unat t < 2 ^ 16" using unsigned_less[of t] by simp
  with a show ?thesis by (simp add: unat_word_ariths)
qed

lemma on_step:
  assumes "all_features_activated s" "wake_state s = STATE_LOAD_ON" "is_load_enabled s"
    and "\<not> undervoltage_protection_triggered (loop adc s)"
    and "wakeup_count_load_feature s + 1 < timing_cycles_load_on s"
  shows "wake_state (loop adc s) = STATE_LOAD_ON \<and> is_load_enabled (loop adc s) \<and>
         wakeup_count_load_feature (loop adc s) = wakeup_count_load_feature s + 1"
  using assms by (auto simp add: loop_defs Let_def split: if_splits)

lemma on_switch:
  assumes "all_features_activated s" "wake_state s = STATE_LOAD_ON" "is_load_enabled s"
    and "\<not> undervoltage_protection_triggered (loop adc s)"
    and "timing_cycles_load_on s \<le> wakeup_count_load_feature s + 1"
  shows "wake_state (loop adc s) = STATE_LOAD_OFF \<and> \<not> is_load_enabled (loop adc s) \<and>
         wakeup_count_load_feature (loop adc s) = 0"
  using assms by (auto simp add: loop_defs Let_def split: if_splits)

lemma off_step:
  assumes "all_features_activated s" "wake_state s = STATE_LOAD_OFF" "\<not> is_load_enabled s"
    and "\<not> undervoltage_protection_triggered s"
    and "wakeup_count_load_feature s + 1 < timing_cycles_load_off s"
  shows "wake_state (loop adc s) = STATE_LOAD_OFF \<and> \<not> is_load_enabled (loop adc s) \<and>
         wakeup_count_load_feature (loop adc s) = wakeup_count_load_feature s + 1 \<and>
         \<not> undervoltage_protection_triggered (loop adc s)"
  using assms by (auto simp add: loop_defs Let_def split: if_splits)

lemma off_switch:
  assumes "all_features_activated s" "wake_state s = STATE_LOAD_OFF" "\<not> is_load_enabled s"
    and "\<not> undervoltage_protection_triggered s"
    and "timing_cycles_load_off s \<le> wakeup_count_load_feature s + 1"
  shows "wake_state (loop adc s) = STATE_LOAD_ON \<and> is_load_enabled (loop adc s) \<and>
         wakeup_count_load_feature (loop adc s) = 0 \<and>
         \<not> undervoltage_protection_triggered (loop adc s)"
  using assms by (auto simp add: loop_defs Let_def split: if_splits)

lemma on_phase:
  assumes "all_features_activated s" "wake_state s = STATE_LOAD_ON" "is_load_enabled s"
  shows "\<not> undervoltage_protection_triggered (run_loop adc n s) \<Longrightarrow>
         unat (wakeup_count_load_feature s) + n < unat (timing_cycles_load_on s) \<Longrightarrow>
         wake_state (run_loop adc n s) = STATE_LOAD_ON \<and> is_load_enabled (run_loop adc n s) \<and>
         unat (wakeup_count_load_feature (run_loop adc n s)) = unat (wakeup_count_load_feature s) + n"
proof (induction n)
  case 0
  with assms show ?case by simp
next
  case (Suc n)
  let ?s = "run_loop adc n s"
  have nt: "\<not> undervoltage_protection_triggered ?s"
    using Suc.prems(1) loop_latch_mono by auto
  have ih: "wake_state ?s = STATE_LOAD_ON" "is_load_enabled ?s"
    "unat (wakeup_count_load_feature ?s) = unat (wakeup_count_load_feature s) + n"
    using Suc.IH[OF nt] Suc.prems(2) by simp_all
  have u: "unat (wakeup_count_load_feature ?s + 1) = unat (wakeup_count_load_feature s) + Suc n"
    using unat_count_inc[of "wakeup_count_load_feature ?s" "timing_cycles_load_on s"]
      Suc.prems(2) by (simp add: ih(3))
  have lt: "wakeup_count_load_feature ?s + 1 < timing_cycles_load_on ?s"
    using u Suc.prems(2) by (simp add: word_less_nat_alt run_loop_config)
  have "all_features_activated ?s" using assms(1) by (simp add: run_loop_config)
  from on_step[OF this ih(1) ih(2) _ lt, of "adc n"] Suc.prems(1)
  show ?case by (simp add: u)
qed

lemma off_phase:
  assumes "all_features_activated s" "wake_state s = STATE_LOAD_OFF" "\<not> is_load_enabled s"
    "\<not> undervoltage_protection_triggered s"
  shows "unat (wakeup_count_load_feature s) + n < unat (timing_cycles_load_off s) \<Longrightarrow>
         wake_state (run_loop adc n s) = STATE_LOAD_OFF \<and> \<not> is_load_enabled (run_loop adc n s) \<and>
         unat (wakeup_count_load_feature (run_loop adc n s)) = unat (wakeup_count_load_feature s) + n \<and>
         \<not> undervoltage_protection_triggered (run_loop adc n s)"
proof (induction n)
  case 0
  with assms show ?case by simp
next
  case (Suc n)
  let ?s = "run_loop adc n s"
  have ih: "wake_state ?s = STATE_LOAD_OFF" "\<not> is_load_enabled ?s"
    "unat (wakeup_count_load_feature ?s) = unat (wakeup_count_load_feature s) + n"
    "\<not> undervoltage_protection_triggered ?s"
    using Suc.IH Suc.prems by simp_all
  have u: "unat (wakeup_count_load_feature ?s + 1) = unat (wakeup_count_load_feature s) + Suc n"
    using unat_count_inc[of "wakeup_count_load_feature ?s" "timing_cycles_load_off s"]
      Suc.prems by (simp add: ih(3))
  have lt: "wakeup_count_load_feature ?s + 1 < timing_cycles_load_off ?s"
    using u Suc.prems by (simp add: word_less_nat_alt run_loop_config)
  have "all_features_activated ?s" using assms(1) by (simp add: run_loop_config)
  from off_step[OF this ih(1) ih(2) ih(4) lt, of "adc n"]
  show ?case by (simp add: u)
qed

subsection \<open>Clock calibration and startup\<close>

lemmas eeprom_defs = EEPROM_ADDR_CLOCK_CALIB_3_MSB_def EEPROM_ADDR_CLOCK_CALIB_2_def
  EEPROM_ADDR_CLOCK_CALIB_1_def EEPROM_ADDR_CLOCK_CALIB_0_LSB_def
  EEPROM_ADDR_CLOCK_CALIB_MAGIC_NUMBER_def EEPROM_CLOCK_CALIB_MAGIC_NUMBER_def

lemmas timing_defs = TIMING_CYCLES_LOAD_ON_12V_def TIMING_CYCLES_LOAD_OFF_12V_def
  TIMING_CYCLES_LOAD_ON_24V_def TIMING_CYCLES_LOAD_OFF_24V_def
  ADC_BATTERY_THRESHOLD_12v_def ADC_BATTERY_THRESHOLD_24v_def

lemma calibration_discarded:
  "(clock_calib < SLEEP_CLOCK_VALUE_HZ - SLEEP_CLOCK_DEVIATION_MAX_HZ \<or>
    clock_calib > SLEEP_CLOCK_VALUE_HZ + SLEEP_CLOCK_DEVIATION_MAX_HZ)
   = (unat clock_calib < 98000 \<or> 158000 < unat clock_calib)"
  by (simp add: SLEEP_CLOCK_VALUE_HZ_def SLEEP_CLOCK_DEVIATION_MAX_HZ_def word_less_nat_alt)

lemma unat_apply_clock_calibration:
  "unat (apply_clock_calibration c n) =
     (if unat c < 98000 \<or> 158000 < unat c then unat n
      else ((unat c * unat n) mod 2 ^ 32) div 128000)"
  unfolding apply_clock_calibration_def calibration_discarded
  by (simp add: SLEEP_CLOCK_VALUE_HZ_def unat_div unat_word_ariths)

lemma boot_fields:
  "clock_calibration (boot hw) = read_clock_calibration hw"
  "all_features_activated (boot hw) = get_feature_selection hw"
  "undervoltage_adc_threshold (boot hw) =
     (if get_12V_24V_selection hw then ADC_BATTERY_THRESHOLD_12v else ADC_BATTERY_THRESHOLD_24v)"
  "timing_cycles_load_on (boot hw) =
     (if clock_calibration_present hw
      then ucast (apply_clock_calibration (read_clock_calibration hw)
             (ucast (if get_12V_24V_selection hw then TIMING_CYCLES_LOAD_ON_12V
                     else TIMING_CYCLES_LOAD_ON_24V)))
      else (if get_12V_24V_selection hw then TIMING_CYCLES_LOAD_ON_12V
            else TIMING_CYCLES_LOAD_ON_24V))"
  "timing_cycles_load_off (boot hw) =
     (if clock_calibration_present hw
      then ucast (apply_clock_calibration (read_clock_calibration hw)
             (ucast (if get_12V_24V_selection hw then TIMING_CYCLES_LOAD_OFF_12V
                     else TIMING_CYCLES_LOAD_OFF_24V)))
      else (if get_12V_24V_selection hw then TIMING_CYCLES_LOAD_OFF_12V
            else TIMING_CYCLES_LOAD_OFF_24V))"
  "wakeup_count_load_feature (boot hw) = 0"
  "wakeup_count_undervoltage_protection (boot hw) = 0"
  "undervoltage_protection_triggered (boot hw) = False"
  "wake_state (boot hw) = STATE_LOAD_ON"
  "vbat_en_pin (boot hw) = HIGH"
  "calls (boot hw) = [Enable_Load False, Enable_Load True]"
  by (simp_all add: boot_def setup_fn_def reset_state_def initialize_gpios_def enable_load_def
      Let_def)

text \<open>
  C3, as stated, fails: the product \<open>clock_calibration * uncalibrated_value\<close> is computed
  in \<open>uint32_t\<close> and wraps around. With the calibration 128000, which is in the accepted
  range, and the value 40000, the function returns 6445, whereas
  \<open>128000 * 40000 / 128000 = 40000\<close>.
\<close>

theorem apply_clock_calibration_wraps_counterexample:
  "(98000::nat) \<le> unat (128000::uint32_t) \<and> unat (128000::uint32_t) \<le> 158000 \<and>
   unat (apply_clock_calibration 128000 40000) = 6445 \<and>
   unat (128000::uint32_t) * unat (40000::uint32_t) div 128000 = 40000"
  by (simp add: unat_apply_clock_calibration)

text \<open>
  C3, amended: for a calibration \<open>c\<close> in the range from 98000 to 158000 and a value \<open>n\<close>
  whose product with \<open>c\<close> is below \<open>2 ^ 32\<close>, \<open>apply_clock_calibration c n\<close> is
  \<open>c * n\<close> divided by 128000, rounded down; for every \<open>c\<close> outside the range it is
  \<open>n\<close>, unchanged.
\<close>

theorem apply_clock_calibration_scaling:
  "(98000 \<le> unat c \<and> unat c \<le> 158000 \<and> unat c * unat n < 2 ^ 32 \<longrightarrow>
      unat (apply_clock_calibration c n) = unat c * unat n div 128000) \<and>
   (unat c < 98000 \<or> 158000 < unat c \<longrightarrow> apply_clock_calibration c n = n)"
proof -
  have "apply_clock_calibration c n = n" if "unat c < 98000 \<or> 158000 < unat c"
    using that unfolding apply_clock_calibration_def calibration_discarded by simp
  then show ?thesis by (auto simp add: unat_apply_clock_calibration)
qed

theorem apply_clock_calibration_scaling_witness:
  "unat (apply_clock_calibration 140000 7031) = 7690 \<and> apply_clock_calibration 0 7031 = 7031
   \<and> apply_clock_calibration 158001 7031 = 7031"
  using apply_clock_calibration_scaling [of 140000 7031]
    apply_clock_calibration_scaling [of 0 7031]
    apply_clock_calibration_scaling [of 158001 7031]
  by simp

text \<open>
  C8: when the four calibration bytes of the EEPROM all read \<open>0xFF\<close>, whatever the magic
  number byte holds, \<open>read_clock_calibration\<close> returns 0, \<open>apply_clock_calibration\<close>
  with that value returns its argument unchanged, and after \<open>setup\<close> the two timing
  variables hold the nominal tick counts.
\<close>

theorem erased_calibration_is_identity:
  assumes "eeprom hw EEPROM_ADDR_CLOCK_CALIB_3_MSB = 0xFF"
    and "eeprom hw EEPROM_ADDR_CLOCK_CALIB_2 = 0xFF"
    and "eeprom hw EEPROM_ADDR_CLOCK_CALIB_1 = 0xFF"
    and "eeprom hw EEPROM_ADDR_CLOCK_CALIB_0_LSB = 0xFF"
  shows "read_clock_calibration hw = 0 \<and>
         apply_clock_calibration (read_clock_calibration hw) n = n \<and>
         timing_cycles_load_on (boot hw) =
           (if get_12V_24V_selection hw then TIMING_CYCLES_LOAD_ON_12V
            else TIMING_CYCLES_LOAD_ON_24V) \<and>
         timing_cycles_load_off (boot hw) =
           (if get_12V_24V_selection hw then TIMING_CYCLES_LOAD_OFF_12V
            else TIMING_CYCLES_LOAD_OFF_24V)"
proof -
  have r: "read_clock_calibration hw = 0"
    using assms by (simp add: read_clock_calibration_def)
  have a: "apply_clock_calibration 0 m = m" for m
    unfolding apply_clock_calibration_def calibration_discarded by simp
  show ?thesis by (simp add: r a boot_fields timing_defs)
qed

theorem erased_calibration_is_identity_witness:
  "clock_calibration_present erased_calibration_hardware \<and>
   read_clock_calibration erased_calibration_hardware = 0 \<and>
   timing_cycles_load_on (boot erased_calibration_hardware) = 7031 \<and>
   timing_cycles_load_off (boot erased_calibration_hardware) = 3516"
  using erased_calibration_is_identity [of erased_calibration_hardware 0]
  by (simp add: erased_calibration_hardware_def clock_calibration_present_def eeprom_defs
      get_12V_24V_selection_def timing_defs)

text \<open>
  C4: after \<open>setup\<close>, the undervoltage threshold is 721 for the 12 V selection and 726
  otherwise, and it does not depend on the calibration; the on and off tick counts are the
  nominal ones (7031 and 3516 for 12 V, 8789 and 1758 otherwise), each passed through
  \<open>apply_clock_calibration\<close> when the calibration is present; and however many times
  \<open>loop\<close> runs, the three variables keep the value \<open>setup\<close> gave them.
\<close>

theorem setup_configuration:
  "undervoltage_adc_threshold (boot hw) = (if get_12V_24V_selection hw then 721 else 726) \<and>
   timing_cycles_load_on (boot hw) =
     (if clock_calibration_present hw
      then ucast (apply_clock_calibration (read_clock_calibration hw)
                    (if get_12V_24V_selection hw then 7031 else 8789))
      else (if get_12V_24V_selection hw then 7031 else 8789)) \<and>
   timing_cycles_load_off (boot hw) =
     (if clock_calibration_present hw
      then ucast (apply_clock_calibration (read_clock_calibration hw)
                    (if get_12V_24V_selection hw then 3516 else 1758))
      else (if get_12V_24V_selection hw then 3516 else 1758)) \<and>
   timing_cycles_load_on (run_loop adc n (boot hw)) = timing_cycles_load_on (boot hw) \<and>
   timing_cycles_load_off (run_loop adc n (boot hw)) = timing_cycles_load_off (boot hw) \<and>
   undervoltage_adc_threshold (run_loop adc n (boot hw)) = undervoltage_adc_threshold (boot hw)"
  by (simp add: boot_fields run_loop_config timing_defs)

theorem setup_configuration_witness:
  "undervoltage_adc_threshold (boot calibrated_hardware) = 721 \<and>
   timing_cycles_load_on (boot calibrated_hardware) = 7690 \<and>
   timing_cycles_load_off (boot calibrated_hardware) = 3845 \<and>
   timing_cycles_load_on (run_loop battery_full 5 (boot calibrated_hardware)) = 7690 \<and>
   undervoltage_adc_threshold (boot undervoltage_only_hardware) = 726 \<and>
   timing_cycles_load_on (boot undervoltage_only_hardware) = 8789 \<and>
   timing_cycles_load_off (boot undervoltage_only_hardware) = 1758"
proof -
  have c: "read_clock_calibration calibrated_hardware = 140000"
    by (simp add: read_clock_calibration_def calibrated_hardware_def eeprom_defs)
  have a: "apply_clock_calibration 140000 7031 = 7690" "apply_clock_calibration 140000 3516 = 3845"
    by (simp_all add: apply_clock_calibration_def SLEEP_CLOCK_VALUE_HZ_def
        SLEEP_CLOCK_DEVIATION_MAX_HZ_def)
  have p: "clock_calibration_present calibrated_hardware"
    "get_12V_24V_selection calibrated_hardware"
    "\<not> clock_calibration_present undervoltage_only_hardware"
    "\<not> get_12V_24V_selection undervoltage_only_hardware"
    by (simp_all add: calibrated_hardware_def undervoltage_only_hardware_def
        clock_calibration_present_def get_12V_24V_selection_def eeprom_defs)
  show ?thesis
    using setup_configuration [of calibrated_hardware battery_full 5]
      setup_configuration [of undervoltage_only_hardware battery_full 5]
    by (simp add: c a p)
qed

text \<open>
  For an accepted calibration and the nominal tick counts, assigning the \<open>uint32_t\<close> result
  to the \<open>uint16_t\<close> variable loses nothing.
\<close>

lemma calibrated_timing_not_truncated:
  assumes "98000 \<le> unat c" "unat c \<le> 158000" "unat n \<le> 8789"
  shows "unat (ucast (apply_clock_calibration c n) :: uint16_t) = unat c * unat n div 128000"
proof -
  have "unat c * unat n \<le> 158000 * 8789" using assms by (intro mult_mono) simp_all
  then have b: "unat c * unat n \<le> 1388662000" by simp
  then have "unat c * unat n < 2 ^ 32" by simp
  then have e: "unat (apply_clock_calibration c n) = unat c * unat n div 128000"
    using assms by (simp add: unat_apply_clock_calibration)
  have "unat c * unat n div 128000 \<le> 1388662000 div 128000" using b by (rule div_le_mono)
  then have "unat c * unat n div 128000 < 2 ^ 16" by simp
  then show ?thesis by (simp add: unsigned_ucast_eq take_bit_nat_eq_self e)
qed

subsection \<open>The default branch of the load timing\<close>

text \<open>
  C7: when the load timing runs (all features, protection not triggered) and \<open>wake_state\<close>
  is neither \<open>STATE_LOAD_ON\<close> nor \<open>STATE_LOAD_OFF\<close>, the block sets \<open>wake_state\<close> to
  \<open>STATE_LOAD_OFF\<close> and changes nothing else: the load pin keeps its level, no call of
  \<open>enable_load\<close> is made, and the counters and the trigger flag are as before.
\<close>

theorem default_branch_keeps_load:
  assumes "load_timing_activated s" and "\<not> undervoltage_protection_triggered s"
    and "wake_state s \<noteq> STATE_LOAD_ON" and "wake_state s \<noteq> STATE_LOAD_OFF"
  shows "loop_load_timing s = s\<lparr>wake_state := STATE_LOAD_OFF\<rparr> \<and>
         wake_state (loop_load_timing s) = STATE_LOAD_OFF \<and>
         vbat_en_pin (loop_load_timing s) = vbat_en_pin s \<and>
         calls (loop_load_timing s) = calls s"
  using assms by (cases "wake_state s") (simp_all add: loop_load_timing_def)

theorem default_branch_keeps_load_witness:
  "wake_state corrupted_state = STATE_INVALID \<and>
   wake_state (loop_load_timing corrupted_state) = STATE_LOAD_OFF \<and>
   is_load_enabled (loop_load_timing corrupted_state) \<and>
   calls (loop_load_timing corrupted_state) = calls corrupted_state"
  using default_branch_keeps_load [of corrupted_state]
  by (simp add: corrupted_state_def boot_fields load_timing_activated_def is_load_enabled_def
      get_feature_selection_def calibrated_hardware_def)

subsection \<open>The undervoltage latch\<close>

text \<open>
  Once the protection has triggered and the load is off, a tick only increments the two
  counters: no call is made and the state machine does not move.
\<close>

lemma run_latched:
  assumes "undervoltage_protection_triggered s" and "\<not> is_load_enabled s"
  shows "undervoltage_protection_triggered (run_loop adc n s) \<and>
         \<not> is_load_enabled (run_loop adc n s) \<and>
         calls (run_loop adc n s) = calls s \<and>
         wake_state (run_loop adc n s) = wake_state s"
proof (induction n)
  case 0
  from assms show ?case by simp
next
  case (Suc n)
  then have "loop (adc n) (run_loop adc n s) = loop_wakeup (run_loop adc n s)"
    by (simp add: loop_latched)
  with Suc show ?case by (simp add: loop_wakeup_def is_load_enabled_def)
qed

lemma consistent_run: "consistent (run_loop adc n (boot hw))"
  by (induction n) (simp_all add: consistent_boot consistent_loop)

text \<open>
  C1: if at some tick the load is on, the measurement is due and the averaged battery reading
  is strictly below \<open>undervoltage_adc_threshold\<close>, then at the end of that tick and of every
  later tick, whatever the later ADC readings are, \<open>undervoltage_protection_triggered\<close> is
  set and the load is off; no call is made after that tick, so the load is never enabled
  again.
\<close>

theorem undervoltage_latch_is_permanent:
  assumes "is_load_enabled s"
    and "TIMING_CYCLES_BATTERY_MEASUREMENT \<le> wakeup_count_undervoltage_protection s + 1"
    and "fst (read_battery_voltage adc0 s) < undervoltage_adc_threshold s"
  shows "undervoltage_protection_triggered (run_loop adc n (loop adc0 s)) \<and>
         \<not> is_load_enabled (run_loop adc n (loop adc0 s)) \<and>
         calls (run_loop adc n (loop adc0 s)) = calls (loop adc0 s)"
proof -
  have "fst (read_battery_voltage adc0 (loop_wakeup s)) < undervoltage_adc_threshold s"
    using assms(3) by (simp add: read_battery_voltage_def)
  from loop_fire [OF assms(1,2) this] run_latched show ?thesis by blast
qed

theorem undervoltage_latch_is_permanent_witness:
  "is_load_enabled (run_loop battery_full 109 (boot calibrated_hardware)) \<and>
   wakeup_count_undervoltage_protection (run_loop battery_full 109 (boot calibrated_hardware))
     = 109 \<and>
   undervoltage_protection_triggered
     (run_loop battery_full 1000
        (loop (battery_empty 109) (run_loop battery_full 109 (boot calibrated_hardware)))) \<and>
   \<not> is_load_enabled
     (run_loop battery_full 1000
        (loop (battery_empty 109) (run_loop battery_full 109 (boot calibrated_hardware))))"
proof -
  let ?s = "run_loop battery_full 109 (boot calibrated_hardware)"
  have a: "is_load_enabled ?s" by code_simp
  have b: "wakeup_count_undervoltage_protection ?s = 109" by code_simp
  have c: "TIMING_CYCLES_BATTERY_MEASUREMENT \<le> wakeup_count_undervoltage_protection ?s + 1"
    by (simp add: b TIMING_CYCLES_BATTERY_MEASUREMENT_def)
  have "undervoltage_adc_threshold ?s = 721" by code_simp
  moreover have "fst (read_battery_voltage (battery_empty 109) ?s) = 0"
    unfolding read_battery_voltage_def fst_conv by code_simp
  ultimately have d: "fst (read_battery_voltage (battery_empty 109) ?s)
      < undervoltage_adc_threshold ?s" by simp
  from undervoltage_latch_is_permanent [OF a c d, of battery_full 1000] a b
  show ?thesis by simp
qed

text \<open>
  C10: in a run from startup, once \<open>undervoltage_protection_triggered\<close> is set at the end of
  tick \<open>t\<close>, the log of calls never grows again: \<open>read_battery_voltage\<close> is not called in
  any later tick, and the load stays off.
\<close>

theorem no_measurement_after_latch:
  assumes "undervoltage_protection_triggered (run_loop adc t (boot hw))"
  shows "calls (run_loop adc (t + n) (boot hw)) = calls (run_loop adc t (boot hw)) \<and>
         count_list (calls (run_loop adc (t + n) (boot hw))) Read_Battery_Voltage =
           count_list (calls (run_loop adc t (boot hw))) Read_Battery_Voltage \<and>
         \<not> is_load_enabled (run_loop adc (t + n) (boot hw))"
proof -
  have "\<not> is_load_enabled (run_loop adc t (boot hw))"
    using consistent_run [of adc t hw] assms by (simp add: consistent_def)
  from run_latched [OF assms this] show ?thesis by (simp add: run_loop_add)
qed

theorem no_measurement_after_latch_witness:
  "undervoltage_protection_triggered (run_loop battery_empty 110 (boot calibrated_hardware)) \<and>
   count_list (calls (run_loop battery_empty 110 (boot calibrated_hardware)))
     Read_Battery_Voltage = 1 \<and>
   count_list (calls (run_loop battery_empty (110 + 5000) (boot calibrated_hardware)))
     Read_Battery_Voltage = 1 \<and>
   \<not> is_load_enabled (run_loop battery_empty (110 + 5000) (boot calibrated_hardware))"
proof -
  have a: "undervoltage_protection_triggered
      (run_loop battery_empty 110 (boot calibrated_hardware))" by code_simp
  have b: "count_list (calls (run_loop battery_empty 110 (boot calibrated_hardware)))
      Read_Battery_Voltage = 1" by code_simp
  from no_measurement_after_latch [OF a, of 5000] a b show ?thesis by simp
qed

subsection \<open>State machine and load pin\<close>

text \<open>
  C9: at the end of every tick of every run from startup, as long as
  \<open>undervoltage_protection_triggered\<close> is clear, \<open>wake_state\<close> is \<open>STATE_LOAD_ON\<close> exactly
  when the load is enabled.
\<close>

theorem wake_state_agrees_with_load:
  assumes "\<not> undervoltage_protection_triggered (run_loop adc n (boot hw))"
  shows "(wake_state (run_loop adc n (boot hw)) = STATE_LOAD_ON) =
         is_load_enabled (run_loop adc n (boot hw))"
  using consistent_run [of adc n hw] assms by (auto simp add: consistent_def)

theorem wake_state_agrees_with_load_witness:
  "\<not> undervoltage_protection_triggered (run_loop battery_full 3 (boot calibrated_hardware)) \<and>
   wake_state (run_loop battery_full 3 (boot calibrated_hardware)) = STATE_LOAD_ON \<and>
   is_load_enabled (run_loop battery_full 3 (boot calibrated_hardware))"
proof -
  have a: "\<not> undervoltage_protection_triggered
      (run_loop battery_full 3 (boot calibrated_hardware))" by code_simp
  have b: "is_load_enabled (run_loop battery_full 3 (boot calibrated_hardware))" by code_simp
  from wake_state_agrees_with_load [OF a] a b show ?thesis by simp
qed

text \<open>
  After the protection has triggered the two do differ: \<open>wake_state\<close> is left at
  \<open>STATE_LOAD_ON\<close> while the load is off.
\<close>

lemma wake_state_differs_after_latch:
  "undervoltage_protection_triggered (run_loop battery_empty 110 (boot calibrated_hardware)) \<and>
   wake_state (run_loop battery_empty 110 (boot calibrated_hardware)) = STATE_LOAD_ON \<and>
   \<not> is_load_enabled (run_loop battery_empty 110 (boot calibrated_hardware))"
  by code_simp

subsection \<open>Undervoltage protection only\<close>

lemma undervoltage_only_invariant:
  assumes "\<not> all_features_activated s" and "wake_state s = STATE_LOAD_ON"
    and "is_load_enabled s = (\<not> undervoltage_protection_triggered s)"
  shows "\<not> all_features_activated (run_loop adc n s) \<and>
         wake_state (run_loop adc n s) = STATE_LOAD_ON \<and>
         is_load_enabled (run_loop adc n s) =
           (\<not> undervoltage_protection_triggered (run_loop adc n s))"
proof (induction n)
  case 0
  from assms show ?case by simp
next
  case (Suc n)
  then show ?case by (auto simp add: loop_defs Let_def)
qed

text \<open>
  C6: when the feature jumper selects undervoltage protection only, in every tick of a run
  from startup the load timing is not activated, so the tick consists of the counter
  increments and the undervoltage block alone; \<open>wake_state\<close> stays \<open>STATE_LOAD_ON\<close>, and
  the load is on exactly as long as the undervoltage protection has not triggered.
\<close>

theorem undervoltage_only_skips_load_timing:
  assumes "\<not> get_feature_selection hw"
  shows "\<not> load_timing_activated (run_loop adc n (boot hw)) \<and>
         run_loop adc (Suc n) (boot hw) =
           loop_undervoltage_protection (adc n) (loop_wakeup (run_loop adc n (boot hw))) \<and>
         wake_state (run_loop adc n (boot hw)) = STATE_LOAD_ON \<and>
         is_load_enabled (run_loop adc n (boot hw)) =
           (\<not> undervoltage_protection_triggered (run_loop adc n (boot hw)))"
proof -
  have i: "\<not> all_features_activated (run_loop adc n (boot hw)) \<and>
         wake_state (run_loop adc n (boot hw)) = STATE_LOAD_ON \<and>
         is_load_enabled (run_loop adc n (boot hw)) =
           (\<not> undervoltage_protection_triggered (run_loop adc n (boot hw)))"
    using assms by (intro undervoltage_only_invariant) (simp_all add: boot_fields is_load_enabled_def)
  have "all_features_activated (loop_undervoltage_protection (adc n) (loop_wakeup s)) =
        all_features_activated s" for s
    by (simp add: loop_defs Let_def)
  with i have "loop (adc n) (run_loop adc n (boot hw)) =
      loop_undervoltage_protection (adc n) (loop_wakeup (run_loop adc n (boot hw)))"
    by (simp add: loop_def loop_load_timing_def load_timing_activated_def)
  with i show ?thesis by (simp add: load_timing_activated_def)
qed

theorem undervoltage_only_skips_load_timing_witness:
  "\<not> get_feature_selection undervoltage_only_hardware \<and>
   wake_state (run_loop battery_full 9000 (boot undervoltage_only_hardware)) = STATE_LOAD_ON \<and>
   \<not> load_timing_activated (run_loop battery_full 9000 (boot undervoltage_only_hardware)) \<and>
   is_load_enabled (run_loop battery_empty 110 (boot undervoltage_only_hardware)) =
     (\<not> undervoltage_protection_triggered
          (run_loop battery_empty 110 (boot undervoltage_only_hardware)))"
proof -
  have a: "\<not> get_feature_selection undervoltage_only_hardware"
    by (simp add: get_feature_selection_def undervoltage_only_hardware_def)
  from undervoltage_only_skips_load_timing [OF a, of battery_full 9000]
    undervoltage_only_skips_load_timing [OF a, of battery_empty 110] a
  show ?thesis by simp
qed

subsection \<open>Cadence of the battery measurement\<close>

lemma load_timing_keeps_measurement:
  "wakeup_count_undervoltage_protection (loop_load_timing s) =
     wakeup_count_undervoltage_protection s"
  "count_list (calls (loop_load_timing s)) Read_Battery_Voltage =
     count_list (calls s) Read_Battery_Voltage"
  by (simp_all add: loop_load_timing_def enable_load_def split: wake_states_t.split)

lemma undervoltage_protection_measurement:
  "wakeup_count_undervoltage_protection (loop_undervoltage_protection adc s) =
     (if is_load_enabled s \<and>
         TIMING_CYCLES_BATTERY_MEASUREMENT \<le> wakeup_count_undervoltage_protection s
      then 0 else wakeup_count_undervoltage_protection s)"
  "count_list (calls (loop_undervoltage_protection adc s)) Read_Battery_Voltage =
     count_list (calls s) Read_Battery_Voltage +
     (if is_load_enabled s \<and>
         TIMING_CYCLES_BATTERY_MEASUREMENT \<le> wakeup_count_undervoltage_protection s
      then 1 else 0)"
  by (simp_all add: loop_undervoltage_protection_def read_battery_voltage_def enable_load_def
      Let_def)

lemma loop_measurement_counter:
  "wakeup_count_undervoltage_protection (loop adc s) =
     (if is_load_enabled s \<and>
         TIMING_CYCLES_BATTERY_MEASUREMENT \<le> wakeup_count_undervoltage_protection s + 1
      then 0 else wakeup_count_undervoltage_protection s + 1)"
  unfolding loop_def load_timing_keeps_measurement undervoltage_protection_measurement
  by (simp add: loop_wakeup_def is_load_enabled_def)

lemma loop_measurement_calls:
  "count_list (calls (loop adc s)) Read_Battery_Voltage =
     count_list (calls s) Read_Battery_Voltage +
     (if is_load_enabled s \<and>
         TIMING_CYCLES_BATTERY_MEASUREMENT \<le> wakeup_count_undervoltage_protection s + 1
      then 1 else 0)"
  unfolding loop_def load_timing_keeps_measurement undervoltage_protection_measurement
  by (simp add: loop_wakeup_def is_load_enabled_def)

lemma no_measurement_before_due:
  assumes "wakeup_count_undervoltage_protection s = 0"
  shows "n < 110 \<Longrightarrow>
         unat (wakeup_count_undervoltage_protection (run_loop adc n s)) = n \<and>
         count_list (calls (run_loop adc n s)) Read_Battery_Voltage =
           count_list (calls s) Read_Battery_Voltage"
proof (induction n)
  case 0
  from assms show ?case by simp
next
  case (Suc n)
  let ?c = "wakeup_count_undervoltage_protection (run_loop adc n s)"
  from Suc have ih: "unat ?c = n"
    "count_list (calls (run_loop adc n s)) Read_Battery_Voltage =
       count_list (calls s) Read_Battery_Voltage" by simp_all
  have "unat ?c < unat (110 :: uint16_t)" using Suc.prems ih(1) by simp
  then have u: "unat (?c + 1) = Suc n" using unat_count_inc ih(1) by fastforce
  then have "\<not> TIMING_CYCLES_BATTERY_MEASUREMENT \<le> ?c + 1"
    using Suc.prems by (simp add: TIMING_CYCLES_BATTERY_MEASUREMENT_def word_le_nat_alt)
  then show ?case
    by (simp add: loop_measurement_counter loop_measurement_calls ih(2) u)
qed

text \<open>
  C5: in every tick the measurement counter is incremented once; the battery is measured in
  that tick exactly when the load is enabled and the incremented counter has reached 110;
  in that case the counter is 0 at the end of the tick whatever the ADC returns, and
  otherwise it keeps the incremented value. Hence, started with the counter at 0 (as after
  a measurement), no measurement is taken during the next 109 ticks, after \<open>n\<close> of which
  the counter stands at \<open>n\<close>.
\<close>

theorem battery_measurement_cadence:
  "wakeup_count_undervoltage_protection (loop adc s) =
     (if is_load_enabled s \<and>
         TIMING_CYCLES_BATTERY_MEASUREMENT \<le> wakeup_count_undervoltage_protection s + 1
      then 0 else wakeup_count_undervoltage_protection s + 1) \<and>
   count_list (calls (loop adc s)) Read_Battery_Voltage =
     count_list (calls s) Read_Battery_Voltage +
     (if is_load_enabled s \<and>
         TIMING_CYCLES_BATTERY_MEASUREMENT \<le> wakeup_count_undervoltage_protection s + 1
      then 1 else 0) \<and>
   (wakeup_count_undervoltage_protection s = 0 \<and> n < 110 \<longrightarrow>
      unat (wakeup_count_undervoltage_protection (run_loop adcs n s)) = n \<and>
      count_list (calls (run_loop adcs n s)) Read_Battery_Voltage =
        count_list (calls s) Read_Battery_Voltage)"
  using loop_measurement_counter [of adc s] loop_measurement_calls [of adc s]
    no_measurement_before_due [of s n adcs]
  by simp

theorem battery_measurement_cadence_witness:
  "count_list (calls (boot calibrated_hardware)) Read_Battery_Voltage = 0 \<and>
   count_list (calls (run_loop battery_full 109 (boot calibrated_hardware)))
     Read_Battery_Voltage = 0 \<and>
   unat (wakeup_count_undervoltage_protection
     (run_loop battery_full 109 (boot calibrated_hardware))) = 109 \<and>
   wakeup_count_undervoltage_protection
     (loop (battery_empty 109) (run_loop battery_full 109 (boot calibrated_hardware))) = 0 \<and>
   wakeup_count_undervoltage_protection
     (loop (battery_full 109) (run_loop battery_full 109 (boot calibrated_hardware))) = 0 \<and>
   count_list (calls
     (loop (battery_full 109) (run_loop battery_full 109 (boot calibrated_hardware))))
     Read_Battery_Voltage = 1"
proof -
  let ?s = "run_loop battery_full 109 (boot calibrated_hardware)"
  have z: "wakeup_count_undervoltage_protection (boot calibrated_hardware) = 0"
    "count_list (calls (boot calibrated_hardware)) Read_Battery_Voltage = 0"
    by (simp_all add: boot_fields)
  have a: "is_load_enabled ?s" by code_simp
  from battery_measurement_cadence
    [of "battery_full 0" "boot calibrated_hardware" 109 battery_full] z
  have b: "unat (wakeup_count_undervoltage_protection ?s) = 109"
    "count_list (calls ?s) Read_Battery_Voltage = 0" by simp_all
  from b(1) have c: "wakeup_count_undervoltage_protection ?s = 109"
    by (simp add: word_unat_eq_iff)
  from battery_measurement_cadence [of "battery_empty 109" ?s 0 battery_full]
    battery_measurement_cadence [of "battery_full 109" ?s 0 battery_full] a b c z
  show ?thesis by (simp add: TIMING_CYCLES_BATTERY_MEASUREMENT_def)
qed

subsection \<open>The load timing state machine\<close>

lemma load_timing_on:
  assumes "load_timing_activated s" and "\<not> undervoltage_protection_triggered s"
    and "wake_state s = STATE_LOAD_ON"
  shows "loop_load_timing s =
     (if timing_cycles_load_on s \<le> wakeup_count_load_feature s
      then s\<lparr>wakeup_count_load_feature := 0, wake_state := STATE_LOAD_OFF,
             vbat_en_pin := LOW, calls := calls s @ [Enable_Load False]\<rparr>
      else s)"
  using assms by (simp add: loop_load_timing_def enable_load_def)

lemma load_timing_off:
  assumes "load_timing_activated s" and "\<not> undervoltage_protection_triggered s"
    and "wake_state s = STATE_LOAD_OFF"
  shows "loop_load_timing s =
     (if timing_cycles_load_off s \<le> wakeup_count_load_feature s
      then s\<lparr>wakeup_count_load_feature := 0, wake_state := STATE_LOAD_ON,
             vbat_en_pin := HIGH, calls := calls s @ [Enable_Load True]\<rparr>
      else s)"
  using assms by (simp add: loop_load_timing_def enable_load_def)

text \<open>
  As long as no averaged reading is below the threshold, the protection does not trigger.
\<close>

lemma no_undervoltage_no_latch:
  assumes "\<And>t. undervoltage_adc_threshold s \<le> fst (read_battery_voltage (adc t) s)"
    and "\<not> undervoltage_protection_triggered s"
  shows "\<not> undervoltage_protection_triggered (run_loop adc n s)"
proof (induction n)
  case 0
  from assms show ?case by simp
next
  case (Suc n)
  have "\<not> fst (read_battery_voltage (adc n) s) < undervoltage_adc_threshold (run_loop adc n s)"
    using assms(1) [of n] by (simp add: run_loop_config not_less)
  with Suc show ?case
    by (simp add: loop_defs Let_def split: wake_states_t.split)
qed

text \<open>
  The first on and off phase of the 12 V configuration without calibration, in a run in
  which the protection does not trigger.
\<close>

lemma v12_duty_cycle:
  assumes hw: "get_12V_24V_selection hw" "get_feature_selection hw"
    "\<not> clock_calibration_present hw"
    and nt: "\<not> undervoltage_protection_triggered (run_loop adc 10547 (boot hw))"
  shows "(\<forall>k<7031. is_load_enabled (run_loop adc k (boot hw)) \<and>
                   wake_state (run_loop adc k (boot hw)) = STATE_LOAD_ON) \<and>
         (\<forall>k. 7031 \<le> k \<and> k < 10547 \<longrightarrow>
                   \<not> is_load_enabled (run_loop adc k (boot hw)) \<and>
                   wake_state (run_loop adc k (boot hw)) = STATE_LOAD_OFF) \<and>
         is_load_enabled (run_loop adc 10547 (boot hw)) \<and>
         wake_state (run_loop adc 10547 (boot hw)) = STATE_LOAD_ON"
proof -
  let ?r = "\<lambda>k. run_loop adc k (boot hw)"
  have b: "all_features_activated (boot hw)" "wake_state (boot hw) = STATE_LOAD_ON"
    "is_load_enabled (boot hw)" "wakeup_count_load_feature (boot hw) = 0"
    "timing_cycles_load_on (boot hw) = 7031" "timing_cycles_load_off (boot hw) = 3516"
    using hw by (simp_all add: boot_fields is_load_enabled_def timing_defs)
  have cfg: "all_features_activated (?r k)" "timing_cycles_load_on (?r k) = 7031"
    "timing_cycles_load_off (?r k) = 3516" for k
    by (simp_all add: run_loop_config b)
  have clear: "\<not> undervoltage_protection_triggered (?r k)" if "k \<le> 10547" for k
    using nt run_latch_mono [OF _ that] by blast
  have on: "wake_state (?r k) = STATE_LOAD_ON \<and> is_load_enabled (?r k) \<and>
      unat (wakeup_count_load_feature (?r k)) = k" if "k < 7031" for k
    using on_phase [OF b(1,2,3), of adc k] clear [of k] that by (simp add: b)
  have s1: "?r 7031 = loop (adc 7030) (?r 7030)"
  proof -
    have "(7031::nat) = Suc 7030" by simp
    then show ?thesis by (simp only: run_loop.simps)
  qed
  have "unat (wakeup_count_load_feature (?r 7030) + 1) = 7031"
    using unat_count_inc [of "wakeup_count_load_feature (?r 7030)" 7031] on [of 7030] by simp
  then have "timing_cycles_load_on (?r 7030) \<le> wakeup_count_load_feature (?r 7030) + 1"
    by (simp add: cfg word_le_nat_alt)
  from on_switch [OF cfg(1) [of 7030] _ _ _ this, where adc = "adc 7030"] on [of 7030] clear [of 7031]
  have sw: "wake_state (?r 7031) = STATE_LOAD_OFF" "\<not> is_load_enabled (?r 7031)"
    "wakeup_count_load_feature (?r 7031) = 0"
    by (simp_all add: s1)
  have off: "wake_state (?r (7031 + j)) = STATE_LOAD_OFF \<and> \<not> is_load_enabled (?r (7031 + j)) \<and>
      unat (wakeup_count_load_feature (?r (7031 + j))) = j" if "j < 3516" for j
    using off_phase [OF cfg(1) [of 7031] sw(1,2) clear [of 7031], where n = j and adc = "\<lambda>t. adc (7031 + t)"] that
    by (simp add: run_loop_add sw(3) cfg)
  have off': "\<not> is_load_enabled (?r k) \<and> wake_state (?r k) = STATE_LOAD_OFF"
    if "7031 \<le> k" "k < 10547" for k
  proof -
    from that have "k = 7031 + (k - 7031)" "k - 7031 < 3516" by simp_all
    with off [of "k - 7031"] show ?thesis by simp
  qed
  have s2: "?r 10547 = loop (adc 10546) (?r 10546)"
  proof -
    have "(10547::nat) = Suc 10546" by simp
    then show ?thesis by (simp only: run_loop.simps)
  qed
  have o: "wake_state (?r 10546) = STATE_LOAD_OFF" "\<not> is_load_enabled (?r 10546)"
    "unat (wakeup_count_load_feature (?r 10546)) = 3515"
    using off [of 3515] by simp_all
  have "unat (wakeup_count_load_feature (?r 10546) + 1) = 3516"
    using unat_count_inc [of "wakeup_count_load_feature (?r 10546)" 3516] o(3) by simp
  then have "timing_cycles_load_off (?r 10546) \<le> wakeup_count_load_feature (?r 10546) + 1"
    by (simp add: cfg word_le_nat_alt)
  from off_switch [OF cfg(1) [of 10546] o(1,2) clear [of 10546] this, where adc = "adc 10546"]
  have "wake_state (?r 10547) = STATE_LOAD_ON" "is_load_enabled (?r 10547)"
    by (simp_all add: s2)
  with on off' show ?thesis by blast
qed

text \<open>
  C2: when all features are selected and the protection has not triggered, the load timing
  block does this. In \<open>STATE_LOAD_ON\<close>, if the load counter has reached
  \<open>timing_cycles_load_on\<close>, the counter becomes 0, the load is switched off and the state
  becomes \<open>STATE_LOAD_OFF\<close>; in \<open>STATE_LOAD_OFF\<close>, if the counter has reached
  \<open>timing_cycles_load_off\<close>, the counter becomes 0, the load is switched on and the state
  becomes \<open>STATE_LOAD_ON\<close>; otherwise the state is unchanged. For the 12 V selection with
  all features and no calibration, in a run from startup in which the protection does not
  trigger, the load is on at the end of every tick before the 7031st, off from the 7031st to
  the 10546th, and on again at the end of the 10547th, that is 3516 ticks later.
\<close>

theorem load_timing_state_machine:
  "(load_timing_activated s \<and> \<not> undervoltage_protection_triggered s \<and>
    wake_state s = STATE_LOAD_ON \<longrightarrow>
      loop_load_timing s =
        (if timing_cycles_load_on s \<le> wakeup_count_load_feature s
         then s\<lparr>wakeup_count_load_feature := 0, wake_state := STATE_LOAD_OFF,
                vbat_en_pin := LOW, calls := calls s @ [Enable_Load False]\<rparr>
         else s)) \<and>
   (load_timing_activated s \<and> \<not> undervoltage_protection_triggered s \<and>
    wake_state s = STATE_LOAD_OFF \<longrightarrow>
      loop_load_timing s =
        (if timing_cycles_load_off s \<le> wakeup_count_load_feature s
         then s\<lparr>wakeup_count_load_feature := 0, wake_state := STATE_LOAD_ON,
                vbat_en_pin := HIGH, calls := calls s @ [Enable_Load True]\<rparr>
         else s)) \<and>
   (get_12V_24V_selection hw \<and> get_feature_selection hw \<and> \<not> clock_calibration_present hw \<and>
    \<not> undervoltage_protection_triggered (run_loop adc 10547 (boot hw)) \<longrightarrow>
      (\<forall>k<7031. is_load_enabled (run_loop adc k (boot hw)) \<and>
                wake_state (run_loop adc k (boot hw)) = STATE_LOAD_ON) \<and>
      (\<forall>k. 7031 \<le> k \<and> k < 10547 \<longrightarrow>
                \<not> is_load_enabled (run_loop adc k (boot hw)) \<and>
                wake_state (run_loop adc k (boot hw)) = STATE_LOAD_OFF) \<and>
      is_load_enabled (run_loop adc 10547 (boot hw)) \<and>
      wake_state (run_loop adc 10547 (boot hw)) = STATE_LOAD_ON)"
  using load_timing_on [of s] load_timing_off [of s] v12_duty_cycle [of hw adc]
  by blast

text \<open>The average of 32 readings of 1023 is 1023.\<close>

lemma battery_full_reading:
  "fst (read_battery_voltage (battery_full t) s) = 1023"
proof -
  have "adc_accumulate (battery_full t) n = of_nat n * 1023" for n
    by (induction n) (simp_all add: battery_full_def algebra_simps)
  then show ?thesis
    by (simp add: read_battery_voltage_def ADC_AVERAGE_NUM_def ADC_DIVISION_SHIFT_def)
qed

theorem load_timing_state_machine_witness:
  "is_load_enabled (run_loop battery_full 7030 (boot uncalibrated_12V_hardware)) \<and>
   \<not> is_load_enabled (run_loop battery_full 7031 (boot uncalibrated_12V_hardware)) \<and>
   wake_state (run_loop battery_full 7031 (boot uncalibrated_12V_hardware)) = STATE_LOAD_OFF \<and>
   \<not> is_load_enabled (run_loop battery_full 10546 (boot uncalibrated_12V_hardware)) \<and>
   is_load_enabled (run_loop battery_full 10547 (boot uncalibrated_12V_hardware)) \<and>
   wake_state (run_loop battery_full 10547 (boot uncalibrated_12V_hardware)) = STATE_LOAD_ON \<and>
   loop_load_timing ((boot uncalibrated_12V_hardware)\<lparr>wakeup_count_load_feature := 7031\<rparr>) =
     (boot uncalibrated_12V_hardware)
       \<lparr>wakeup_count_load_feature := 0, wake_state := STATE_LOAD_OFF, vbat_en_pin := LOW,
        calls := [Enable_Load False, Enable_Load True, Enable_Load False]\<rparr>"
proof -
  let ?hw = uncalibrated_12V_hardware
  let ?s = "(boot ?hw)\<lparr>wakeup_count_load_feature := 7031\<rparr>"
  have hw: "get_12V_24V_selection ?hw" "get_feature_selection ?hw"
    "\<not> clock_calibration_present ?hw"
    by (simp_all add: uncalibrated_12V_hardware_def get_12V_24V_selection_def
        get_feature_selection_def clock_calibration_present_def eeprom_defs)
  have "undervoltage_adc_threshold (boot ?hw) = 721" "\<not> undervoltage_protection_triggered (boot ?hw)"
    using hw by (simp_all add: boot_fields timing_defs)
  then have nt: "\<not> undervoltage_protection_triggered (run_loop battery_full 10547 (boot ?hw))"
    by (intro no_undervoltage_no_latch) (simp_all add: battery_full_reading)
  have s: "load_timing_activated ?s" "\<not> undervoltage_protection_triggered ?s"
    "wake_state ?s = STATE_LOAD_ON" "timing_cycles_load_on ?s = 7031"
    "wakeup_count_load_feature ?s = 7031"
    using hw by (simp_all add: boot_fields load_timing_activated_def timing_defs)
  note t = load_timing_state_machine [of ?s ?hw battery_full]
  from t s have step: "loop_load_timing ?s =
      ?s\<lparr>wakeup_count_load_feature := 0, wake_state := STATE_LOAD_OFF, vbat_en_pin := LOW,
         calls := calls ?s @ [Enable_Load False]\<rparr>"
    by simp
  from t hw nt have run:
    "\<forall>k<7031. is_load_enabled (run_loop battery_full k (boot ?hw)) \<and>
              wake_state (run_loop battery_full k (boot ?hw)) = STATE_LOAD_ON"
    "\<forall>k. 7031 \<le> k \<and> k < 10547 \<longrightarrow>
              \<not> is_load_enabled (run_loop battery_full k (boot ?hw)) \<and>
              wake_state (run_loop battery_full k (boot ?hw)) = STATE_LOAD_OFF"
    "is_load_enabled (run_loop battery_full 10547 (boot ?hw))"
    "wake_state (run_loop battery_full 10547 (boot ?hw)) = STATE_LOAD_ON"
    by blast+
  from run(1) have r1: "is_load_enabled (run_loop battery_full 7030 (boot ?hw))" by simp
  from run(2) have r2: "\<not> is_load_enabled (run_loop battery_full 7031 (boot ?hw))"
    "wake_state (run_loop battery_full 7031 (boot ?hw)) = STATE_LOAD_OFF"
    "\<not> is_load_enabled (run_loop battery_full 10546 (boot ?hw))" by simp_all
  from step have "loop_load_timing ?s = (boot ?hw)
       \<lparr>wakeup_count_load_feature := 0, wake_state := STATE_LOAD_OFF, vbat_en_pin := LOW,
        calls := [Enable_Load False, Enable_Load True, Enable_Load False]\<rparr>"
    by (simp add: boot_fields)
  with r1 r2 run(3,4) show ?thesis by simp
qed

end
